theory Spec2Isabelle
  imports Main
begin

section \<open>The inspection views of \<^verbatim>\<open>redisboard/admin.py\<close>\<close>

text \<open>
  The theory embeds the request-handling code of \<^verbatim>\<open>RedisServerAdmin\<close>: the permission
  wrapper built in \<^verbatim>\<open>get_urls\<close>, the \<^verbatim>\<open>inspect\<close> view and the \<^verbatim>\<open>inspect_key\<close> view.
  Python's effects are explicit. Every function that touches the store, the renderer
  or the connection takes the list of events that happened so far and returns it
  extended; an exception is the \<open>Inl\<close> branch of the result. What the collaborators
  outside this file answer (the store, Django, urllib) is a parameter: a field of the
  server, the request or the environment.
\<close>

subsection \<open>Values\<close>

type_synonym bytes = string

text \<open>A per-database entry of \<^verbatim>\<open>stats.databases\<close>, such as \<^verbatim>\<open>{'keys': 10, 'expires': 0}\<close>.\<close>

type_synonym details = "(string \<times> int) list"

text \<open>The dict that \<^verbatim>\<open>request.GET.dict()\<close> returns for the query string.\<close>

type_synonym query = "(string \<times> string) list"

text \<open>
  Modelled from the spec: the class \<^verbatim>\<open>ScanResult\<close> is declared in
  \<^verbatim>\<open>redisboard/structs.py\<close>, which is not among the sources. The spec's ScanPage has the
  keys of one scan step, the cursor to resume from and the count; the view reads
  \<^verbatim>\<open>scan.count\<close>.
\<close>

record ScanResult =
  keys :: "bytes list"
  next_cursor :: int
  count :: int

text \<open>
  Modelled from the spec: what \<^verbatim>\<open>display.keys\<close> reports for one key (name, type, size
  and time to live of the spec's KeyDetail). The view only passes it on.
\<close>

record KeyInfo =
  key_name :: bytes
  key_type :: string
  key_size :: int
  key_ttl :: "int option"

text \<open>
  The attribute \<^verbatim>\<open>DBInfo.scan\<close> holds a flag when the object is built and the scan
  page once line 207 has assigned it.
\<close>

datatype scan_field = Flag bool | Page ScanResult

text \<open>Python's truth value of \<^verbatim>\<open>dbinfo.scan\<close> (line 206); an object without
  \<^verbatim>\<open>__bool__\<close> is true.\<close>

fun truthy :: "scan_field \<Rightarrow> bool" where
  "truthy (Flag b) = b"
| "truthy (Page p) = True"

record dbinfo =
  db_id :: int
  details :: details
  scan :: scan_field
  cursor :: "int option"

text \<open>
  Modelled from the spec: the constructor of \<^verbatim>\<open>DBInfo\<close> (declared in
  \<^verbatim>\<open>redisboard/structs.py\<close>, not among the sources). It takes the id, the details dict
  and the keyword \<^verbatim>\<open>scan\<close>; the cursor is not set by the constructor call sites and
  stays unset (\<open>None\<close>) until line 208 assigns it.
\<close>

definition DBInfo :: "int \<Rightarrow> details \<Rightarrow> bool \<Rightarrow> dbinfo" where
  "DBInfo i d s = \<lparr>db_id = i, details = d, scan = Flag s, cursor = None\<rparr>"

text \<open>
  Modelled from the spec: \<^verbatim>\<open>DBInfo(*item)\<close> leaves \<^verbatim>\<open>scan\<close> at its default, which the
  spec gives as scanning disabled.
\<close>

definition DBInfo_default :: "int \<Rightarrow> details \<Rightarrow> dbinfo" where
  "DBInfo_default i d = DBInfo i d False"

text \<open>\<^verbatim>\<open>details.get('keys', 0)\<close>\<close>

definition get_keys :: "details \<Rightarrow> int" where
  "get_keys d = (case map_of d ''keys'' of None \<Rightarrow> 0 | Some n \<Rightarrow> n)"

definition key_count :: "dbinfo \<Rightarrow> int" where
  "key_count d = get_keys (details d)"

datatype exn =
  TypeError string
| AttributeError string
| Http404
| StoreError string

datatype event =
  ConnectionAcquired
| ConnectionClosed
| ExistsCall bytes "exn + int"
| ScanCall int int query "exn + ScanResult"
| KeysCall int "bytes list" "exn + KeyInfo list"
| ValueCall int bytes int int "exn + ScanResult"
| Rendered string

text \<open>\<^verbatim>\<open>server.stats\<close>: its truth value (line 192) and its \<^verbatim>\<open>databases\<close> dict, in
  the dict's order.\<close>

record ServerStats =
  stats_bool :: bool
  databases :: "(int \<times> details) list"

text \<open>
  A \<^verbatim>\<open>RedisServer\<close> with its connection and its display. A call that reaches the store
  answers from the events so far, so two calls with the same arguments may differ.
\<close>

record RedisServer =
  stats :: ServerStats
  connection_exists :: "event list \<Rightarrow> bytes \<Rightarrow> exn + int"
  display_scan :: "event list \<Rightarrow> int \<Rightarrow> int \<Rightarrow> query \<Rightarrow> exn + ScanResult"
  display_keys :: "event list \<Rightarrow> int \<Rightarrow> bytes list \<Rightarrow> exn + KeyInfo list"
  display_value :: "event list \<Rightarrow> int \<Rightarrow> bytes \<Rightarrow> int \<Rightarrow> int \<Rightarrow> exn + ScanResult"
  decoder_key :: "bytes \<Rightarrow> string"

record request =
  GET :: query
  GET_urlencode :: string
  user_is_active :: bool
  user_is_staff :: bool
  user_has_perm :: "string \<Rightarrow> bool"

text \<open>
  The template contexts of lines 171-185 and 212-222. The entries that are constants
  or the server object itself (\<^verbatim>\<open>display\<close>, \<^verbatim>\<open>original\<close>, \<^verbatim>\<open>site_header\<close>, \<^verbatim>\<open>opts\<close>,
  \<^verbatim>\<open>media\<close>) carry nothing the views compute and are left out.
\<close>

record inspect_context =
  ctx_databases :: "dbinfo list"
  ctx_stats :: ServerStats
  ctx_active :: "dbinfo option"
  ctx_filters :: string

record key_context =
  ctx_key :: string
  ctx_encoded_key :: string
  ctx_key_stats :: "KeyInfo list"
  ctx_count :: int
  ctx_scan :: ScanResult
  ctx_db_id :: int
  ctx_db_cursor :: int

datatype template_context = InspectContext inspect_context | KeyContext key_context

text \<open>What \<^verbatim>\<open>connection=...\<close> of the post-render callback is bound to.\<close>

datatype conn_value = Connection | BoundClose

datatype callback = CleanupConnection conn_value

text \<open>
  \<open>HttpResponse\<close> is what \<^verbatim>\<open>django.shortcuts.render\<close> returns: the body is produced when
  the view returns. A \<open>TemplateResponse\<close> is rendered later and carries its post-render
  callbacks.
\<close>

datatype response =
  HttpResponseForbidden string
| HttpResponseNotFound string
| HttpResponseRedirect string
| HttpResponse string template_context
| TemplateResponse string template_context "callback list"

fun deferred :: "response \<Rightarrow> bool" where
  "deferred (TemplateResponse t c cbs) = True"
| "deferred r = False"

type_synonym 'a result = "(exn + 'a) \<times> event list"

record kwargs =
  kw_db :: "int option"
  kw_cursor :: "int option"
  kw_count :: "int option"
  kw_key :: "string option"

type_synonym view = "request \<Rightarrow> RedisServer \<Rightarrow> kwargs \<Rightarrow> event list \<Rightarrow> response result"

record env =
  REDISBOARD_SCAN_COUNT :: int
  unquote_to_bytes :: "string \<Rightarrow> bytes"
  quote :: "bytes \<Rightarrow> string"
  objects :: "int \<Rightarrow> RedisServer option"
  has_view_permission :: "request \<Rightarrow> RedisServer \<Rightarrow> bool"
  redirect_to_login :: "request \<Rightarrow> string"

subsection \<open>\<^verbatim>\<open>inspect\<close>, lines 188-223\<close>

text \<open>Line 193.\<close>

definition total_keys :: "(int \<times> details) list \<Rightarrow> int" where
  "total_keys dbs = sum_list (map (\<lambda>item. get_keys (snd item)) dbs)"

text \<open>Lines 194-203: \<^verbatim>\<open>active\<close> and \<^verbatim>\<open>databases\<close> as they stand before the loop.\<close>

definition select_databases ::
  "int \<Rightarrow> (int \<times> details) list \<Rightarrow> int option \<Rightarrow> dbinfo option \<times> dbinfo list" where
  "select_databases threshold dbs db =
     (case db of
        Some i \<Rightarrow>
          (let active = (case map_of dbs i of
                           Some d \<Rightarrow> DBInfo i d True
                         | None \<Rightarrow> DBInfo i [(''keys'', 0)] True)
           in (Some active, [active]))
      | None \<Rightarrow>
          if total_keys dbs < threshold
          then (None, map (\<lambda>item. DBInfo (fst item) (snd item) True) dbs)
          else (None, map (\<lambda>item. DBInfo_default (fst item) (snd item)) dbs))"

text \<open>
  Line 207, the call \<^verbatim>\<open>server.display.scan(dbinfo.id, cursor=cursor, **request.GET.dict())\<close>.
  Python refuses a keyword given twice before the callee runs.
\<close>

definition call_display_scan ::
  "RedisServer \<Rightarrow> int \<Rightarrow> int \<Rightarrow> query \<Rightarrow> event list \<Rightarrow> ScanResult result" where
  "call_display_scan server i c q tr =
     (if map_of q ''cursor'' \<noteq> None
      then (Inl (TypeError ''got multiple values for keyword argument cursor''), tr)
      else (let r = display_scan server tr i c q in (r, tr @ [ScanCall i c q r])))"

text \<open>Lines 205-208, the loop over \<^verbatim>\<open>databases\<close>.\<close>

fun scan_databases ::
  "RedisServer \<Rightarrow> int \<Rightarrow> query \<Rightarrow> dbinfo list \<Rightarrow> event list \<Rightarrow> dbinfo list result" where
  "scan_databases server c q [] tr = (Inr [], tr)"
| "scan_databases server c q (d # ds) tr =
     (if truthy (scan d) then
        (case call_display_scan server (db_id d) c q tr of
           (Inl e, tr1) \<Rightarrow> (Inl e, tr1)
         | (Inr p, tr1) \<Rightarrow>
             (case scan_databases server c q ds tr1 of
                (Inl e, tr2) \<Rightarrow> (Inl e, tr2)
              | (Inr ds', tr2) \<Rightarrow> (Inr (d\<lparr>scan := Page p, cursor := Some c\<rparr> # ds'), tr2)))
      else
        (case scan_databases server c q ds tr of
           (Inl e, tr2) \<Rightarrow> (Inl e, tr2)
         | (Inr ds', tr2) \<Rightarrow> (Inr (d # ds'), tr2)))"

text \<open>\<^verbatim>\<open>render(request, template, context)\<close>: the body is produced at once.\<close>

definition render :: "string \<Rightarrow> template_context \<Rightarrow> event list \<Rightarrow> response result" where
  "render template ctx tr = (Inr (HttpResponse template ctx), tr @ [Rendered template])"

text \<open>Line 218.\<close>

definition filters :: "request \<Rightarrow> string" where
  "filters rq = (if GET rq \<noteq> [] then ''?'' @ GET_urlencode rq else '''')"

text \<open>
  \<^verbatim>\<open>active\<close> is the object \<^verbatim>\<open>databases[0]\<close> when a database was selected, so the context
  shows it as the loop left it.
\<close>

definition inspect ::
  "env \<Rightarrow> request \<Rightarrow> RedisServer \<Rightarrow> int option \<Rightarrow> int \<Rightarrow> event list \<Rightarrow> response result" where
  "inspect E rq server db c tr =
     (let st = stats server in
      if stats_bool st then
        (case select_databases (REDISBOARD_SCAN_COUNT E) (databases st) db of
           (active, dbs) \<Rightarrow>
             (case scan_databases server c (GET rq) dbs tr of
                (Inl e, tr1) \<Rightarrow> (Inl e, tr1)
              | (Inr dbs', tr1) \<Rightarrow>
                  render ''redisboard/inspect.html''
                    (InspectContext
                       \<lparr>ctx_databases = dbs', ctx_stats = st,
                        ctx_active = (case (active, dbs') of
                                        (Some a, d # ds) \<Rightarrow> Some d
                                      | _ \<Rightarrow> None),
                        ctx_filters = filters rq\<rparr>)
                    tr1))
      else
        render ''redisboard/inspect.html''
          (InspectContext
             \<lparr>ctx_databases = [], ctx_stats = st, ctx_active = None,
              ctx_filters = filters rq\<rparr>)
          tr)"

text \<open>
  \<^verbatim>\<open>view(request, server, **kwargs)\<close> for \<^verbatim>\<open>inspect\<close>: \<^verbatim>\<open>db\<close> defaults to \<^verbatim>\<open>None\<close> and
  \<^verbatim>\<open>cursor\<close> to 0; a keyword the signature does not have is a \<^verbatim>\<open>TypeError\<close>.
\<close>

definition call_inspect :: "env \<Rightarrow> view" where
  "call_inspect E rq server kw tr =
     (if kw_count kw \<noteq> None \<or> kw_key kw \<noteq> None
      then (Inl (TypeError ''inspect() got an unexpected keyword argument''), tr)
      else inspect E rq server (kw_db kw)
             (case kw_cursor kw of None \<Rightarrow> 0 | Some c \<Rightarrow> c) tr)"

subsection \<open>\<^verbatim>\<open>inspect_key\<close>, lines 161-186\<close>

definition inspect_key ::
  "env \<Rightarrow> request \<Rightarrow> RedisServer \<Rightarrow> int \<Rightarrow> string \<Rightarrow> int \<Rightarrow> int \<Rightarrow> event list
   \<Rightarrow> response result" where
  "inspect_key E rq server db key0 c n tr =
     (let key = unquote_to_bytes E key0;
          ex = connection_exists server tr key;
          tr1 = tr @ [ExistsCall key ex]
      in case ex of
           Inl e \<Rightarrow> (Inl e, tr1)
         | Inr found \<Rightarrow>
             if found = 0 then (Inr (HttpResponseNotFound ''Key is gone.''), tr1)
             else
               (let ks = display_keys server tr1 db [key];
                    tr2 = tr1 @ [KeysCall db [key] ks]
                in case ks of
                     Inl e \<Rightarrow> (Inl e, tr2)
                   | Inr key_stats \<Rightarrow>
                       (let v = display_value server tr2 db key c n;
                            tr3 = tr2 @ [ValueCall db key c n v]
                        in case v of
                             Inl e \<Rightarrow> (Inl e, tr3)
                           | Inr sc \<Rightarrow>
                               render ''redisboard/inspect_key.html''
                                 (KeyContext
                                    \<lparr>ctx_key = decoder_key server key,
                                     ctx_encoded_key = quote E key,
                                     ctx_key_stats = key_stats,
                                     ctx_count = count sc + n,
                                     ctx_scan = sc,
                                     ctx_db_id = db,
                                     ctx_db_cursor = c\<rparr>)
                                 tr3)))"

text \<open>
  \<^verbatim>\<open>view(request, server, **kwargs)\<close> for \<^verbatim>\<open>inspect_key\<close>: \<^verbatim>\<open>db\<close> and \<^verbatim>\<open>key\<close> are
  required, \<^verbatim>\<open>cursor\<close> and \<^verbatim>\<open>count\<close> default to 0.
\<close>

definition call_inspect_key :: "env \<Rightarrow> view" where
  "call_inspect_key E rq server kw tr =
     (case (kw_db kw, kw_key kw) of
        (Some db, Some key0) \<Rightarrow>
          inspect_key E rq server db key0
            (case kw_cursor kw of None \<Rightarrow> 0 | Some c \<Rightarrow> c)
            (case kw_count kw of None \<Rightarrow> 0 | Some n \<Rightarrow> n) tr
      | _ \<Rightarrow> (Inl (TypeError ''inspect_key() missing a required positional argument''), tr))"

subsection \<open>The wrapper of \<^verbatim>\<open>get_urls\<close>, lines 109-126\<close>

text \<open>Lines 33-34: \<^verbatim>\<open>connection.close()\<close> on whatever the callback was bound to. A bound
  method has no attribute \<^verbatim>\<open>close\<close>.\<close>

definition cleanup_connection :: "response \<Rightarrow> conn_value \<Rightarrow> event list \<Rightarrow> unit result" where
  "cleanup_connection resp connection tr =
     (case connection of
        Connection \<Rightarrow> (Inr (), tr @ [ConnectionClosed])
      | BoundClose \<Rightarrow> (Inl (AttributeError ''close''), tr))"

text \<open>Lines 118-119: the callback is \<^verbatim>\<open>partial(cleanup_connection, connection=connection.close)\<close>.\<close>

fun add_cleanup :: "response \<Rightarrow> response" where
  "add_cleanup (TemplateResponse t c cbs) = TemplateResponse t c (cbs @ [CleanupConnection BoundClose])"
| "add_cleanup r = r"

text \<open>
  Lines 112-124. \<^verbatim>\<open>get_object_or_404\<close> raises \<^verbatim>\<open>Http404\<close> for an unknown id; reading
  \<^verbatim>\<open>server.connection\<close> is the event \<open>ConnectionAcquired\<close>; the \<^verbatim>\<open>finally\<close> clause closes
  the connection whether the view returned or raised.
\<close>

definition wrapper ::
  "env \<Rightarrow> view \<Rightarrow> request \<Rightarrow> int \<Rightarrow> kwargs \<Rightarrow> event list \<Rightarrow> response result" where
  "wrapper E view rq server_id kw tr =
     (case objects E server_id of
        None \<Rightarrow> (Inl Http404, tr)
      | Some server \<Rightarrow>
          if has_view_permission E rq server \<and> user_has_perm rq ''redisboard.can_inspect''
          then
            (case view rq server kw (tr @ [ConnectionAcquired]) of
               (Inl e, tr1) \<Rightarrow> (Inl e, tr1 @ [ConnectionClosed])
             | (Inr resp, tr1) \<Rightarrow> (Inr (add_cleanup resp), tr1 @ [ConnectionClosed]))
          else (Inr (HttpResponseForbidden ''You can't inspect this server.''), tr))"

text \<open>
  Line 111, \<^verbatim>\<open>self.admin_site.admin_view\<close>. The decorator is Django's
  (\<^verbatim>\<open>AdminSite.admin_view\<close>, outside the repository) and the admin site is the default
  one (line 226): the decorated function is called only for a user who is active and
  staff; any other request is answered with the redirect to the login page, and the
  decorated function does not run.
\<close>

definition admin_view ::
  "env \<Rightarrow> (request \<Rightarrow> int \<Rightarrow> kwargs \<Rightarrow> event list \<Rightarrow> response result)
   \<Rightarrow> request \<Rightarrow> int \<Rightarrow> kwargs \<Rightarrow> event list \<Rightarrow> response result" where
  "admin_view E inner rq server_id kw tr =
     (if user_is_active rq \<and> user_is_staff rq then inner rq server_id kw tr
      else (Inr (HttpResponseRedirect (redirect_to_login E rq)), tr))"

text \<open>Lines 109-111 and 126: \<^verbatim>\<open>wrap(view)\<close> is the wrapper under that decorator.\<close>

definition wrap :: "env \<Rightarrow> view \<Rightarrow> request \<Rightarrow> int \<Rightarrow> kwargs \<Rightarrow> event list \<Rightarrow> response result" where
  "wrap E view = admin_view E (wrapper E view)"

text \<open>Lines 128-159, the six routes in their order.\<close>

datatype url =
  Inspect int
| InspectDb int int
| InspectDbKey int int string
| InspectDbCursor int int int
| InspectDbCursorKey int int int string
| InspectDbCursorCountKey int int int int string

definition no_kwargs :: kwargs where
  "no_kwargs = \<lparr>kw_db = None, kw_cursor = None, kw_count = None, kw_key = None\<rparr>"

fun get_urls :: "env \<Rightarrow> url \<Rightarrow> request \<Rightarrow> event list \<Rightarrow> response result" where
  "get_urls E (Inspect sid) rq tr = wrap E (call_inspect E) rq sid no_kwargs tr"
| "get_urls E (InspectDb sid db) rq tr =
     wrap E (call_inspect E) rq sid (no_kwargs\<lparr>kw_db := Some db\<rparr>) tr"
| "get_urls E (InspectDbKey sid db key0) rq tr =
     wrap E (call_inspect_key E) rq sid (no_kwargs\<lparr>kw_db := Some db, kw_key := Some key0\<rparr>) tr"
| "get_urls E (InspectDbCursor sid db c) rq tr =
     wrap E (call_inspect E) rq sid (no_kwargs\<lparr>kw_db := Some db, kw_cursor := Some c\<rparr>) tr"
| "get_urls E (InspectDbCursorKey sid db c key0) rq tr =
     wrap E (call_inspect_key E) rq sid
       (no_kwargs\<lparr>kw_db := Some db, kw_cursor := Some c, kw_key := Some key0\<rparr>) tr"
| "get_urls E (InspectDbCursorCountKey sid db c n key0) rq tr =
     wrap E (call_inspect_key E) rq sid
       (no_kwargs\<lparr>kw_db := Some db, kw_cursor := Some c, kw_count := Some n, kw_key := Some key0\<rparr>) tr"

text \<open>The server id, the keyword arguments and the view of each route.\<close>

fun route_server_id :: "url \<Rightarrow> int" where
  "route_server_id (Inspect sid) = sid"
| "route_server_id (InspectDb sid db) = sid"
| "route_server_id (InspectDbKey sid db key0) = sid"
| "route_server_id (InspectDbCursor sid db c) = sid"
| "route_server_id (InspectDbCursorKey sid db c key0) = sid"
| "route_server_id (InspectDbCursorCountKey sid db c n key0) = sid"

fun route_kwargs :: "url \<Rightarrow> kwargs" where
  "route_kwargs (Inspect sid) = no_kwargs"
| "route_kwargs (InspectDb sid db) = no_kwargs\<lparr>kw_db := Some db\<rparr>"
| "route_kwargs (InspectDbKey sid db key0) = no_kwargs\<lparr>kw_db := Some db, kw_key := Some key0\<rparr>"
| "route_kwargs (InspectDbCursor sid db c) = no_kwargs\<lparr>kw_db := Some db, kw_cursor := Some c\<rparr>"
| "route_kwargs (InspectDbCursorKey sid db c key0) =
     no_kwargs\<lparr>kw_db := Some db, kw_cursor := Some c, kw_key := Some key0\<rparr>"
| "route_kwargs (InspectDbCursorCountKey sid db c n key0) =
     no_kwargs\<lparr>kw_db := Some db, kw_cursor := Some c, kw_count := Some n, kw_key := Some key0\<rparr>"

fun route_view :: "env \<Rightarrow> url \<Rightarrow> view" where
  "route_view E (Inspect sid) = call_inspect E"
| "route_view E (InspectDb sid db) = call_inspect E"
| "route_view E (InspectDbKey sid db key0) = call_inspect_key E"
| "route_view E (InspectDbCursor sid db c) = call_inspect E"
| "route_view E (InspectDbCursorKey sid db c key0) = call_inspect_key E"
| "route_view E (InspectDbCursorCountKey sid db c n key0) = call_inspect_key E"

subsection \<open>A concrete server, request and environment\<close>

text \<open>Two databases of 50 and 30 keys, a store that holds the key \<^verbatim>\<open>present\<close> only, and a
  threshold of 100.\<close>

definition example_stats :: ServerStats where
  "example_stats = \<lparr>stats_bool = True,
                     databases = [(0, [(''keys'', 50)]), (1, [(''keys'', 30)])]\<rparr>"

definition example_page :: "int \<Rightarrow> ScanResult" where
  "example_page i = \<lparr>keys = [''user:1''], next_cursor = 0, count = i\<rparr>"

text \<open>A scanner whose page shows the database, the cursor and the filters it was given.\<close>

definition example_scan :: "int \<Rightarrow> int \<Rightarrow> query \<Rightarrow> ScanResult" where
  "example_scan i c q = \<lparr>keys = map snd q, next_cursor = c + 10, count = i\<rparr>"

definition example_server :: RedisServer where
  "example_server =
     \<lparr>stats = example_stats,
      connection_exists = (\<lambda>tr k. Inr (if k = ''present'' then 1 else 0)),
      display_scan = (\<lambda>tr i c q. Inr (example_scan i c q)),
      display_keys = (\<lambda>tr db ks. Inr (map (\<lambda>k. \<lparr>key_name = k, key_type = ''list'',
                                                    key_size = 12, key_ttl = None\<rparr>) ks)),
      display_value = (\<lambda>tr db k c n. Inr (example_page 7)),
      decoder_key = (\<lambda>k. k)\<rparr>"

definition example_request :: request where
  "example_request =
     \<lparr>GET = [(''match'', ''user:*'')], GET_urlencode = ''match=user%3A%2A'',
      user_is_active = True, user_is_staff = True,
      user_has_perm = (\<lambda>p. p = ''redisboard.can_inspect'' \<or> p = ''redisboard.view_redisserver'')\<rparr>"

definition example_env :: env where
  "example_env =
     \<lparr>REDISBOARD_SCAN_COUNT = 100,
      unquote_to_bytes = (\<lambda>s. s),
      quote = (\<lambda>b. b),
      objects = (\<lambda>i. if i = 1 then Some example_server else None),
      has_view_permission = (\<lambda>rq server. user_has_perm rq ''redisboard.view_redisserver''),
      redirect_to_login = (\<lambda>rq. ''/admin/login/'')\<rparr>"

subsection \<open>When the connection is closed too early\<close>

text \<open>
  The events of one request close the connection before the response is produced when
  the response is still to be rendered (a \<open>TemplateResponse\<close>) and the connection is already
  closed, or when the close comes before the rendering of an eager response.
\<close>

definition closed_before_produced :: "response \<Rightarrow> event list \<Rightarrow> bool" where
  "closed_before_produced resp evs =
     (case resp of
        TemplateResponse t c cbs \<Rightarrow> ConnectionClosed \<in> set evs
      | HttpResponse t c \<Rightarrow> ConnectionClosed \<in> set (takeWhile (\<lambda>e. e \<noteq> Rendered t) evs)
      | _ \<Rightarrow> False)"

section \<open>The database selection\<close>

text \<open>
  C1. With no database selected, the selection returns one summary per database, and
  the scan flag of every one of them is the comparison of the total key count with the
  threshold: true when the total is below it, false otherwise. Two maps with the same
  total therefore get the same flag, however the keys are spread over the databases.
\<close>

theorem selector_total_decides:
  "fst (select_databases t dbs None) = None \<and>
   map db_id (snd (select_databases t dbs None)) = map fst dbs \<and>
   map key_count (snd (select_databases t dbs None)) = map (\<lambda>item. get_keys (snd item)) dbs \<and>
   (\<forall>d \<in> set (snd (select_databases t dbs None)). scan d = Flag (total_keys dbs < t)) \<and>
   (total_keys dbs = total_keys dbs' \<longrightarrow>
      (\<forall>d \<in> set (snd (select_databases t dbs None)).
       \<forall>d' \<in> set (snd (select_databases t dbs' None)). scan d = scan d'))"
  by (auto simp: select_databases_def DBInfo_default_def DBInfo_def key_count_def comp_def)

theorem selector_total_decides_witness:
  "total_keys [(0, [(''keys'', 50)]), (1, [(''keys'', 30)])] = 80 \<and>
   total_keys [(0, [(''keys'', 500)]), (1, [(''keys'', 700)])] = 1200 \<and>
   map scan (snd (select_databases 100 [(0, [(''keys'', 50)]), (1, [(''keys'', 30)])] None))
     = [Flag True, Flag True] \<and>
   map scan (snd (select_databases 100 [(0, [(''keys'', 500)]), (1, [(''keys'', 700)])] None))
     = [Flag False, Flag False] \<and>
   total_keys [(0, [(''keys'', 80)])] = 80 \<and>
   map scan (snd (select_databases 100 [(0, [(''keys'', 80)])] None)) = [Flag True]"
  using selector_total_decides [of 100 "[(0, [(''keys'', 50)]), (1, [(''keys'', 30)])]" "[(0, [(''keys'', 80)])]"]
    selector_total_decides [of 100 "[(0, [(''keys'', 500)]), (1, [(''keys'', 700)])]" "[(0, [(''keys'', 1200)])]"]
  by (simp add: total_keys_def get_keys_def select_databases_def DBInfo_default_def DBInfo_def)

text \<open>
  C2. With a database selected, the selection returns exactly one summary, for that id,
  with the scan flag set, whatever the key counts and the threshold are. An id without an
  entry gets the details \<^verbatim>\<open>{'keys': 0}\<close>, a key count of 0; no branch raises.
\<close>

theorem explicit_db_one_summary:
  "\<exists>a. select_databases t dbs (Some i) = (Some a, [a]) \<and> db_id a = i \<and> scan a = Flag True \<and>
     (map_of dbs i = None \<longrightarrow> details a = [(''keys'', 0)] \<and> key_count a = 0) \<and>
     (\<forall>d. map_of dbs i = Some d \<longrightarrow> details a = d)"
  by (auto simp: select_databases_def DBInfo_def key_count_def get_keys_def Let_def split: option.splits)

theorem explicit_db_one_summary_witness:
  "select_databases 100 [(0, [(''keys'', 10)])] (Some 5)
     = (Some \<lparr>db_id = 5, details = [(''keys'', 0)], scan = Flag True, cursor = None\<rparr>,
        [\<lparr>db_id = 5, details = [(''keys'', 0)], scan = Flag True, cursor = None\<rparr>]) \<and>
   key_count \<lparr>db_id = 5, details = [(''keys'', 0)], scan = Flag True, cursor = None\<rparr> = 0"
  using explicit_db_one_summary [of 100 "[(0, [(''keys'', 10)])]" 5]
  by (simp add: select_databases_def DBInfo_def key_count_def get_keys_def Let_def)

section \<open>The scan loop\<close>

lemma scan_databases_disabled:
  "\<forall>d \<in> set ds. \<not> truthy (scan d) \<Longrightarrow> scan_databases server c q ds tr = (Inr ds, tr)"
  by (induction ds) auto

lemma call_display_scan_events:
  "call_display_scan server i c q tr = (r, tr') \<Longrightarrow>
     tr' = tr \<or> tr' = tr @ [ScanCall i c q r]"
  by (auto simp: call_display_scan_def Let_def split: if_splits)

lemma call_display_scan_Inr:
  "call_display_scan server i c q tr = (Inr p, tr') \<Longrightarrow>
     tr' = tr @ [ScanCall i c q (Inr p)] \<and> display_scan server tr i c q = Inr p"
  by (auto simp: call_display_scan_def Let_def split: if_splits)

lemma scan_databases_events:
  "scan_databases server c q ds tr = (r, tr') \<Longrightarrow>
     \<exists>evs. tr' = tr @ evs \<and> ConnectionClosed \<notin> set evs"
proof (induction ds arbitrary: tr r tr')
  case Nil
  then show ?case by simp
next
  case (Cons d ds)
  show ?case
  proof (cases "truthy (scan d)")
    case False
    obtain r2 tr2 where rec: "scan_databases server c q ds tr = (r2, tr2)"
      by (cases "scan_databases server c q ds tr")
    from Cons.IH [OF rec] obtain evs where "tr2 = tr @ evs" "ConnectionClosed \<notin> set evs"
      by blast
    moreover from Cons.prems False rec have "tr' = tr2"
      by (auto split: sum.splits)
    ultimately show ?thesis by blast
  next
    case True
    obtain r1 tr1 where call: "call_display_scan server (db_id d) c q tr = (r1, tr1)"
      by (cases "call_display_scan server (db_id d) c q tr")
    from call_display_scan_events [OF call]
    obtain e1 where e1: "tr1 = tr @ e1" "ConnectionClosed \<notin> set e1"
      by (cases "tr1 = tr") auto
    show ?thesis
    proof (cases r1)
      case (Inl e)
      with Cons.prems True call have "tr' = tr1" by simp
      with e1 show ?thesis by blast
    next
      case (Inr p)
      obtain r2 tr2 where rec: "scan_databases server c q ds tr1 = (r2, tr2)"
        by (cases "scan_databases server c q ds tr1")
      from Cons.IH [OF rec] obtain evs where evs: "tr2 = tr1 @ evs" "ConnectionClosed \<notin> set evs"
        by blast
      from Cons.prems True call Inr rec have "tr' = tr2"
        by (auto split: sum.splits)
      with e1 evs have "tr' = tr @ (e1 @ evs)" "ConnectionClosed \<notin> set (e1 @ evs)"
        by auto
      then show ?thesis by blast
    qed
  qed
qed

text \<open>
  When the loop ends without an exception, a summary that was flagged was scanned: the
  events since the start hold the call for its database with the cursor and the query
  dict, the page is what the scanner answered to exactly these arguments at that moment,
  and the summary carries that page and the cursor. A summary that was not flagged is
  unchanged.
\<close>

lemma scan_databases_Inr:
  "scan_databases server c q ds tr = (Inr ds', tr') \<Longrightarrow>
     length ds' = length ds \<and> length tr \<le> length tr' \<and>
     (\<forall>i < length ds.
        (truthy (scan (ds ! i)) \<longrightarrow>
           (\<exists>p pre post.
              tr' = pre @ ScanCall (db_id (ds ! i)) c q (Inr p) # post \<and>
              length tr \<le> length pre \<and>
              display_scan server pre (db_id (ds ! i)) c q = Inr p \<and>
              ds' ! i = (ds ! i)\<lparr>scan := Page p, cursor := Some c\<rparr>)) \<and>
        (\<not> truthy (scan (ds ! i)) \<longrightarrow> ds' ! i = ds ! i))"
proof (induction ds arbitrary: tr ds' tr')
  case Nil
  then show ?case by simp
next
  case (Cons d ds)
  let ?each = "\<lambda>xs xs' t i.
        (truthy (scan (xs ! i)) \<longrightarrow>
           (\<exists>p pre post.
              tr' = pre @ ScanCall (db_id (xs ! i)) c q (Inr p) # post \<and>
              length t \<le> length pre \<and>
              display_scan server pre (db_id (xs ! i)) c q = Inr p \<and>
              xs' ! i = (xs ! i)\<lparr>scan := Page p, cursor := Some c\<rparr>)) \<and>
        (\<not> truthy (scan (xs ! i)) \<longrightarrow> xs' ! i = xs ! i)"
  show ?case
  proof (cases "truthy (scan d)")
    case False
    from Cons.prems False obtain ds2 where
      rec: "scan_databases server c q ds tr = (Inr ds2, tr')" and ds': "ds' = d # ds2"
      by (auto split: sum.splits prod.splits)
    from Cons.IH [OF rec] have len: "length ds2 = length ds" and mono: "length tr \<le> length tr'"
      and each: "\<forall>i < length ds. ?each ds ds2 tr i"
      by blast+
    have "\<forall>i < length (d # ds). ?each (d # ds) ds' tr i"
    proof (intro allI impI)
      fix i assume "i < length (d # ds)"
      then show "?each (d # ds) ds' tr i"
        using each False ds' by (cases i) auto
    qed
    with len mono ds' show ?thesis by simp
  next
    case True
    from Cons.prems True obtain p tr1 ds2 where
      call: "call_display_scan server (db_id d) c q tr = (Inr p, tr1)" and
      rec: "scan_databases server c q ds tr1 = (Inr ds2, tr')" and
      ds': "ds' = d\<lparr>scan := Page p, cursor := Some c\<rparr> # ds2"
      by (auto split: sum.splits prod.splits)
    from call_display_scan_Inr [OF call] have
      tr1: "tr1 = tr @ [ScanCall (db_id d) c q (Inr p)]" and
      answer: "display_scan server tr (db_id d) c q = Inr p"
      by simp_all
    from Cons.IH [OF rec] have len: "length ds2 = length ds" and mono: "length tr1 \<le> length tr'"
      and each: "\<forall>i < length ds. ?each ds ds2 tr1 i"
      by blast+
    from scan_databases_events [OF rec] obtain evs where evs: "tr' = tr1 @ evs" by blast
    with tr1 have head: "tr' = tr @ ScanCall (db_id d) c q (Inr p) # evs" by simp
    from tr1 have le: "length tr \<le> length tr1" by simp
    have "\<forall>i < length (d # ds). ?each (d # ds) ds' tr i"
    proof (intro allI impI)
      fix i assume i: "i < length (d # ds)"
      show "?each (d # ds) ds' tr i"
      proof (cases i)
        case 0
        with head answer ds' True show ?thesis by auto
      next
        case (Suc k)
        with i have k: "k < length ds" by simp
        from each k have ek: "?each ds ds2 tr1 k" by blast
        have "?each ds ds2 tr k"
        proof (cases "truthy (scan (ds ! k))")
          case False
          with ek show ?thesis by simp
        next
          case flagged: True
          with ek obtain p' pre post where
            at: "tr' = pre @ ScanCall (db_id (ds ! k)) c q (Inr p') # post" and
            after: "length tr1 \<le> length pre" and
            ans: "display_scan server pre (db_id (ds ! k)) c q = Inr p'" and
            new: "ds2 ! k = (ds ! k)\<lparr>scan := Page p', cursor := Some c\<rparr>"
            by blast
          from le after have "length tr \<le> length pre" by simp
          with at ans new flagged show ?thesis by blast
        qed
        with Suc ds' show ?thesis by simp
      qed
    qed
    moreover from mono le have "length tr \<le> length tr'" by simp
    ultimately show ?thesis using len ds' by simp
  qed
qed

section \<open>The key view\<close>

text \<open>
  C3. When the existence check answers that the key is not there, \<^verbatim>\<open>inspect_key\<close>
  returns the not-found response; the existence check is the only call it made, so no
  key detail was fetched and nothing was rendered.
\<close>

theorem missing_key_not_found:
  assumes "connection_exists server tr (unquote_to_bytes E key0) = Inr 0"
  shows "inspect_key E rq server db key0 c n tr
           = (Inr (HttpResponseNotFound ''Key is gone.''),
              tr @ [ExistsCall (unquote_to_bytes E key0) (Inr 0)])"
  using assms by (simp add: inspect_key_def Let_def)

theorem missing_key_not_found_witness:
  "inspect_key example_env example_request example_server 0 ''missing'' 0 0 []
     = (Inr (HttpResponseNotFound ''Key is gone.''), [ExistsCall ''missing'' (Inr 0)])"
  using missing_key_not_found [of example_server "[]" example_env "''missing''" example_request 0 0 0]
  by (simp add: example_server_def example_env_def)

text \<open>
  C9. In the context of a rendered key page, \<^verbatim>\<open>count\<close> is the count of the value page that
  \<^verbatim>\<open>display.value\<close> returned plus the \<^verbatim>\<open>count\<close> route parameter (0 when the route has
  none), and the page in the context is the one that call returned.
\<close>

theorem key_context_count:
  assumes "call_inspect_key E rq server kw tr = (Inr (HttpResponse template (KeyContext ctx)), tr')"
    and "kw_db kw = Some db" and "kw_key kw = Some key0"
    and "c = (case kw_cursor kw of None \<Rightarrow> 0 | Some c' \<Rightarrow> c')"
    and "n = (case kw_count kw of None \<Rightarrow> 0 | Some n' \<Rightarrow> n')"
  shows "ctx_count ctx = count (ctx_scan ctx) + n \<and>
         ValueCall db (unquote_to_bytes E key0) c n (Inr (ctx_scan ctx)) \<in> set (drop (length tr) tr')"
proof -
  from assms have run: "inspect_key E rq server db key0 c n tr
                          = (Inr (HttpResponse template (KeyContext ctx)), tr')"
    by (simp add: call_inspect_key_def)
  let ?key = "unquote_to_bytes E key0"
  let ?tr1 = "tr @ [ExistsCall ?key (connection_exists server tr ?key)]"
  let ?tr2 = "?tr1 @ [KeysCall db [?key] (display_keys server ?tr1 db [?key])]"
  from run obtain found where found: "connection_exists server tr ?key = Inr found" "found \<noteq> 0"
    by (cases "connection_exists server tr ?key") (auto simp: inspect_key_def Let_def split: if_splits)
  from run found obtain ks where ks: "display_keys server ?tr1 db [?key] = Inr ks"
    by (cases "display_keys server ?tr1 db [?key]") (auto simp: inspect_key_def Let_def)
  from run found ks obtain sc where sc: "display_value server ?tr2 db ?key c n = Inr sc"
    by (cases "display_value server ?tr2 db ?key c n") (auto simp: inspect_key_def Let_def)
  from run found ks sc have "ctx = \<lparr>ctx_key = decoder_key server ?key, ctx_encoded_key = quote E ?key,
        ctx_key_stats = ks, ctx_count = count sc + n, ctx_scan = sc, ctx_db_id = db,
        ctx_db_cursor = c\<rparr>"
    and "tr' = ?tr2 @ [ValueCall db ?key c n (Inr sc), Rendered ''redisboard/inspect_key.html'']"
    by (auto simp: inspect_key_def Let_def render_def)
  then show ?thesis by simp
qed

theorem key_context_count_witness:
  "call_inspect_key example_env example_request example_server
     (no_kwargs\<lparr>kw_db := Some 0, kw_count := Some 5, kw_key := Some ''present''\<rparr>) []
     = (Inr (HttpResponse ''redisboard/inspect_key.html''
               (KeyContext \<lparr>ctx_key = ''present'', ctx_encoded_key = ''present'',
                  ctx_key_stats = [\<lparr>key_name = ''present'', key_type = ''list'', key_size = 12,
                                     key_ttl = None\<rparr>],
                  ctx_count = 12, ctx_scan = example_page 7, ctx_db_id = 0, ctx_db_cursor = 0\<rparr>)),
        [ExistsCall ''present'' (Inr 1),
         KeysCall 0 [''present''] (Inr [\<lparr>key_name = ''present'', key_type = ''list'', key_size = 12,
                                     key_ttl = None\<rparr>]),
         ValueCall 0 ''present'' 0 5 (Inr (example_page 7)),
         Rendered ''redisboard/inspect_key.html'']) \<and>
   count (example_page 7) = 7"
proof -
  have run: "call_inspect_key example_env example_request example_server
     (no_kwargs\<lparr>kw_db := Some 0, kw_count := Some 5, kw_key := Some ''present''\<rparr>) []
     = (Inr (HttpResponse ''redisboard/inspect_key.html''
               (KeyContext \<lparr>ctx_key = ''present'', ctx_encoded_key = ''present'',
                  ctx_key_stats = [\<lparr>key_name = ''present'', key_type = ''list'', key_size = 12,
                                     key_ttl = None\<rparr>],
                  ctx_count = 12, ctx_scan = example_page 7, ctx_db_id = 0, ctx_db_cursor = 0\<rparr>)),
        [ExistsCall ''present'' (Inr 1),
         KeysCall 0 [''present''] (Inr [\<lparr>key_name = ''present'', key_type = ''list'', key_size = 12,
                                     key_ttl = None\<rparr>]),
         ValueCall 0 ''present'' 0 5 (Inr (example_page 7)),
         Rendered ''redisboard/inspect_key.html''])"
    by (simp add: call_inspect_key_def inspect_key_def render_def Let_def no_kwargs_def
          example_env_def example_server_def example_page_def)
  from key_context_count [OF run, of 0 "''present''" 0 5]
  have "count (example_page 7) = 7" by (simp add: no_kwargs_def)
  with run show ?thesis by simp
qed

section \<open>The overview without stats\<close>

text \<open>
  C7. When \<^verbatim>\<open>server.stats\<close> is false, \<^verbatim>\<open>inspect\<close> returns the rendered overview with an
  empty database list and no active database, whatever database was selected; rendering
  is its only event, so no scan was made.
\<close>

theorem stats_unavailable_empty_page:
  assumes "\<not> stats_bool (stats server)"
  shows "inspect E rq server db c tr
           = (Inr (HttpResponse ''redisboard/inspect.html''
                     (InspectContext \<lparr>ctx_databases = [], ctx_stats = stats server,
                                      ctx_active = None, ctx_filters = filters rq\<rparr>)),
              tr @ [Rendered ''redisboard/inspect.html''])"
  using assms by (simp add: inspect_def render_def Let_def)

theorem stats_unavailable_empty_page_witness:
  "inspect example_env example_request
     (example_server\<lparr>stats := \<lparr>stats_bool = False, databases = []\<rparr>\<rparr>) (Some 3) 0 []
     = (Inr (HttpResponse ''redisboard/inspect.html''
               (InspectContext \<lparr>ctx_databases = [],
                                ctx_stats = \<lparr>stats_bool = False, databases = []\<rparr>,
                                ctx_active = None, ctx_filters = ''?match=user%3A%2A''\<rparr>)),
        [Rendered ''redisboard/inspect.html''])"
  using stats_unavailable_empty_page [of "example_server\<lparr>stats := \<lparr>stats_bool = False, databases = []\<rparr>\<rparr>"
      example_env example_request "Some 3" 0 "[]"]
  by (simp add: filters_def example_request_def)

section \<open>What the two views return\<close>

lemma inspect_shape:
  assumes "inspect E rq server db c tr = (r, tr')"
  shows "\<exists>evs. tr' = tr @ evs \<and> ConnectionClosed \<notin> set evs \<and>
           (\<forall>resp. r = Inr resp \<longrightarrow>
              (\<exists>ctx. resp = HttpResponse ''redisboard/inspect.html'' ctx) \<and>
              evs \<noteq> [] \<and> last evs = Rendered ''redisboard/inspect.html'')"
proof (cases "stats_bool (stats server)")
  case False
  with assms have "r = Inr (HttpResponse ''redisboard/inspect.html''
                     (InspectContext \<lparr>ctx_databases = [], ctx_stats = stats server,
                                      ctx_active = None, ctx_filters = filters rq\<rparr>))"
    and "tr' = tr @ [Rendered ''redisboard/inspect.html'']"
    by (simp_all add: inspect_def render_def Let_def)
  then show ?thesis by simp
next
  case True
  obtain active dbs where sel:
    "select_databases (REDISBOARD_SCAN_COUNT E) (databases (stats server)) db = (active, dbs)"
    by (cases "select_databases (REDISBOARD_SCAN_COUNT E) (databases (stats server)) db")
  obtain r1 tr1 where loop: "scan_databases server c (GET rq) dbs tr = (r1, tr1)"
    by (cases "scan_databases server c (GET rq) dbs tr")
  from scan_databases_events [OF loop] obtain evs where
    evs: "tr1 = tr @ evs" "ConnectionClosed \<notin> set evs" by blast
  show ?thesis
  proof (cases r1)
    case (Inl e)
    with assms True sel loop have "r = Inl e" "tr' = tr1"
      by (simp_all add: inspect_def Let_def)
    with evs show ?thesis by simp
  next
    case (Inr dbs')
    with assms True sel loop obtain ctx where
      "r = Inr (HttpResponse ''redisboard/inspect.html'' ctx)"
      "tr' = tr1 @ [Rendered ''redisboard/inspect.html'']"
      by (auto simp: inspect_def Let_def render_def)
    with evs have "tr' = tr @ (evs @ [Rendered ''redisboard/inspect.html''])"
      and "ConnectionClosed \<notin> set (evs @ [Rendered ''redisboard/inspect.html''])"
      and "\<forall>resp. r = Inr resp \<longrightarrow>
              (\<exists>ctx. resp = HttpResponse ''redisboard/inspect.html'' ctx) \<and>
              evs @ [Rendered ''redisboard/inspect.html''] \<noteq> [] \<and>
              last (evs @ [Rendered ''redisboard/inspect.html'']) = Rendered ''redisboard/inspect.html''"
      by simp_all
    then show ?thesis by blast
  qed
qed


lemma call_inspect_shape:
  assumes "call_inspect E rq server kw tr = (r, tr')"
  shows "\<exists>evs. tr' = tr @ evs \<and> ConnectionClosed \<notin> set evs \<and>
           (\<forall>resp. r = Inr resp \<longrightarrow>
              (\<exists>ctx. resp = HttpResponse ''redisboard/inspect.html'' ctx) \<and>
              evs \<noteq> [] \<and> last evs = Rendered ''redisboard/inspect.html'')"
proof (cases "kw_count kw \<noteq> None \<or> kw_key kw \<noteq> None")
  case True
  with assms have "r = Inl (TypeError ''inspect() got an unexpected keyword argument'')" "tr' = tr"
    by (auto simp: call_inspect_def)
  then show ?thesis by simp
next
  case False
  with assms have "inspect E rq server (kw_db kw) (case kw_cursor kw of None \<Rightarrow> 0 | Some c \<Rightarrow> c) tr = (r, tr')"
    by (simp add: call_inspect_def)
  then show ?thesis by (rule inspect_shape)
qed

lemma inspect_key_shape:
  assumes "inspect_key E rq server db key0 c n tr = (r, tr')"
  shows "\<exists>evs. tr' = tr @ evs \<and> ConnectionClosed \<notin> set evs \<and>
           (\<forall>resp. r = Inr resp \<longrightarrow>
              resp = HttpResponseNotFound ''Key is gone.'' \<or>
              (\<exists>ctx. resp = HttpResponse ''redisboard/inspect_key.html'' ctx) \<and>
              evs \<noteq> [] \<and> last evs = Rendered ''redisboard/inspect_key.html'')"
proof -
  let ?key = "unquote_to_bytes E key0"
  let ?ex = "connection_exists server tr ?key"
  let ?e1 = "[ExistsCall ?key ?ex]"
  let ?ks = "display_keys server (tr @ ?e1) db [?key]"
  let ?e2 = "?e1 @ [KeysCall db [?key] ?ks]"
  let ?v = "display_value server (tr @ ?e2) db ?key c n"
  let ?e3 = "?e2 @ [ValueCall db ?key c n ?v]"
  let ?e4 = "?e3 @ [Rendered ''redisboard/inspect_key.html'']"
  show ?thesis
  proof (cases ?ex)
    case (Inl e)
    with assms have "r = Inl e" "tr' = tr @ ?e1" by (simp_all add: inspect_key_def Let_def)
    then show ?thesis by simp
  next
    case found: (Inr found)
    show ?thesis
    proof (cases "found = 0")
      case True
      with assms found have "r = Inr (HttpResponseNotFound ''Key is gone.'')" "tr' = tr @ ?e1"
        by (simp_all add: inspect_key_def Let_def)
      then show ?thesis by simp
    next
      case False
      show ?thesis
      proof (cases ?ks)
        case (Inl e)
        with assms found False have "r = Inl e" "tr' = tr @ ?e2"
          by (simp_all add: inspect_key_def Let_def)
        then show ?thesis by simp
      next
        case ks: (Inr ks)
        show ?thesis
        proof (cases ?v)
          case (Inl e)
          with assms found False ks have "r = Inl e" "tr' = tr @ ?e3"
            by (simp_all add: inspect_key_def Let_def)
          then show ?thesis by simp
        next
          case (Inr sc)
          with assms found False ks obtain ctx where
            "r = Inr (HttpResponse ''redisboard/inspect_key.html'' ctx)" "tr' = tr @ ?e4"
            by (auto simp: inspect_key_def Let_def render_def)
          moreover have "ConnectionClosed \<notin> set ?e4" "?e4 \<noteq> []"
            "last ?e4 = Rendered ''redisboard/inspect_key.html''"
            by simp_all
          ultimately show ?thesis by blast
        qed
      qed
    qed
  qed
qed

lemma call_inspect_key_shape:
  assumes "call_inspect_key E rq server kw tr = (r, tr')"
  shows "\<exists>evs. tr' = tr @ evs \<and> ConnectionClosed \<notin> set evs \<and>
           (\<forall>resp. r = Inr resp \<longrightarrow>
              resp = HttpResponseNotFound ''Key is gone.'' \<or>
              (\<exists>ctx. resp = HttpResponse ''redisboard/inspect_key.html'' ctx) \<and>
              evs \<noteq> [] \<and> last evs = Rendered ''redisboard/inspect_key.html'')"
proof (cases "\<exists>db key0. kw_db kw = Some db \<and> kw_key kw = Some key0")
  case True
  then obtain db key0 where "kw_db kw = Some db" "kw_key kw = Some key0" by blast
  with assms have "inspect_key E rq server db key0 (case kw_cursor kw of None \<Rightarrow> 0 | Some c \<Rightarrow> c)
            (case kw_count kw of None \<Rightarrow> 0 | Some n \<Rightarrow> n) tr = (r, tr')"
    by (simp add: call_inspect_key_def)
  then show ?thesis by (rule inspect_key_shape)
next
  case False
  with assms have "r = Inl (TypeError ''inspect_key() missing a required positional argument'')" "tr' = tr"
    by (auto simp: call_inspect_key_def split: option.splits)
  then show ?thesis by simp
qed


lemma view_shape:
  assumes "view = call_inspect E \<or> view = call_inspect_key E"
    and "view rq server kw tr = (r, tr')"
  shows "\<exists>evs. tr' = tr @ evs \<and> ConnectionClosed \<notin> set evs \<and>
           (\<forall>resp. r = Inr resp \<longrightarrow>
              (resp = HttpResponseNotFound ''Key is gone.'' \<or>
               (\<exists>t ctx. resp = HttpResponse t ctx \<and> evs \<noteq> [] \<and> last evs = Rendered t)))"
proof -
  from assms(1) show ?thesis
  proof
    assume "view = call_inspect E"
    with assms(2) have "call_inspect E rq server kw tr = (r, tr')" by simp
    from call_inspect_shape [OF this] show ?thesis by blast
  next
    assume "view = call_inspect_key E"
    with assms(2) have "call_inspect_key E rq server kw tr = (r, tr')" by simp
    from call_inspect_key_shape [OF this] show ?thesis by blast
  qed
qed

lemma view_response_kept:
  assumes "view = call_inspect E \<or> view = call_inspect_key E"
    and "view rq server kw tr = (Inr resp, tr')"
  shows "add_cleanup resp = resp \<and> \<not> deferred resp \<and>
         resp \<noteq> HttpResponseForbidden ''You can't inspect this server.''"
proof -
  from view_shape [OF assms] have
    "resp = HttpResponseNotFound ''Key is gone.'' \<or> (\<exists>t ctx. resp = HttpResponse t ctx)"
    by blast
  then show ?thesis by auto
qed

section \<open>The permission gate\<close>

text \<open>
  C4. When the gate of the wrapper denies access to an existing server, the response is
  the forbidden response and the events are unchanged: the view, whichever it is, was not
  run and the connection was neither acquired nor used.
\<close>

theorem denied_is_forbidden:
  assumes "objects E server_id = Some server"
    and "\<not> (has_view_permission E rq server \<and> user_has_perm rq ''redisboard.can_inspect'')"
  shows "wrapper E view rq server_id kw tr
           = (Inr (HttpResponseForbidden ''You can't inspect this server.''), tr)"
  using assms by (auto simp: wrapper_def)

theorem denied_is_forbidden_witness:
  "wrapper example_env (call_inspect example_env)
     (example_request\<lparr>user_has_perm := (\<lambda>p. p = ''redisboard.view_redisserver'')\<rparr>) 1 no_kwargs []
     = (Inr (HttpResponseForbidden ''You can't inspect this server.''), []) \<and>
   wrapper example_env (call_inspect_key example_env)
     (example_request\<lparr>user_has_perm := (\<lambda>p. p = ''redisboard.view_redisserver'')\<rparr>) 1
     (no_kwargs\<lparr>kw_db := Some 0, kw_key := Some ''present''\<rparr>) []
     = (Inr (HttpResponseForbidden ''You can't inspect this server.''), [])"
  using denied_is_forbidden [of example_env 1 example_server
      "example_request\<lparr>user_has_perm := (\<lambda>p. p = ''redisboard.view_redisserver'')\<rparr>"
      "call_inspect example_env" no_kwargs "[]"]
    denied_is_forbidden [of example_env 1 example_server
      "example_request\<lparr>user_has_perm := (\<lambda>p. p = ''redisboard.view_redisserver'')\<rparr>"
      "call_inspect_key example_env" "no_kwargs\<lparr>kw_db := Some 0, kw_key := Some ''present''\<rparr>" "[]"]
  by (simp add: example_env_def example_request_def)

text \<open>
  For an existing server and either view, the wrapper itself serves the request exactly
  when both checks of line 114 hold: the result is then the view's own, followed by the
  close of the connection, and is never the forbidden response; without the first check,
  or without the second, the result is the forbidden response.
\<close>

lemma wrapper_gate:
  assumes "objects E server_id = Some server"
    and "view = call_inspect E \<or> view = call_inspect_key E"
  shows "(has_view_permission E rq server \<and> user_has_perm rq ''redisboard.can_inspect'' \<longrightarrow>
            (\<exists>r tr1. view rq server kw (tr @ [ConnectionAcquired]) = (r, tr1) \<and>
                     wrapper E view rq server_id kw tr = (r, tr1 @ [ConnectionClosed]) \<and>
                     r \<noteq> Inr (HttpResponseForbidden ''You can't inspect this server.''))) \<and>
         (\<not> has_view_permission E rq server \<longrightarrow>
            wrapper E view rq server_id kw tr
              = (Inr (HttpResponseForbidden ''You can't inspect this server.''), tr)) \<and>
         (\<not> user_has_perm rq ''redisboard.can_inspect'' \<longrightarrow>
            wrapper E view rq server_id kw tr
              = (Inr (HttpResponseForbidden ''You can't inspect this server.''), tr))"
proof (intro conjI impI)
  assume gate: "has_view_permission E rq server \<and> user_has_perm rq ''redisboard.can_inspect''"
  obtain r tr1 where run: "view rq server kw (tr @ [ConnectionAcquired]) = (r, tr1)"
    by (cases "view rq server kw (tr @ [ConnectionAcquired])")
  show "\<exists>r tr1. view rq server kw (tr @ [ConnectionAcquired]) = (r, tr1) \<and>
                     wrapper E view rq server_id kw tr = (r, tr1 @ [ConnectionClosed]) \<and>
                     r \<noteq> Inr (HttpResponseForbidden ''You can't inspect this server.'')"
  proof (cases r)
    case (Inl e)
    with assms(1) gate run have "wrapper E view rq server_id kw tr = (r, tr1 @ [ConnectionClosed])"
      by (simp add: wrapper_def)
    with run Inl show ?thesis by simp
  next
    case (Inr resp)
    with run have "view rq server kw (tr @ [ConnectionAcquired]) = (Inr resp, tr1)" by simp
    from view_response_kept [OF assms(2) this]
    have kept: "add_cleanup resp = resp"
      "resp \<noteq> HttpResponseForbidden ''You can't inspect this server.''" by simp_all
    with assms(1) gate run Inr have "wrapper E view rq server_id kw tr = (r, tr1 @ [ConnectionClosed])"
      by (simp add: wrapper_def)
    with run Inr kept show ?thesis by simp
  qed
next
  assume "\<not> has_view_permission E rq server"
  with assms(1) show "wrapper E view rq server_id kw tr
              = (Inr (HttpResponseForbidden ''You can't inspect this server.''), tr)"
    by (simp add: wrapper_def)
next
  assume "\<not> user_has_perm rq ''redisboard.can_inspect''"
  with assms(1) show "wrapper E view rq server_id kw tr
              = (Inr (HttpResponseForbidden ''You can't inspect this server.''), tr)"
    by (simp add: wrapper_def)
qed

lemma get_urls_route:
  "get_urls E u rq tr = wrap E (route_view E u) rq (route_server_id u) (route_kwargs u) tr"
  by (cases u) simp_all

lemma route_view_cases:
  "route_view E u = call_inspect E \<or> route_view E u = call_inspect_key E"
  by (cases u) simp_all

text \<open>
  C8, as the code has it. A request for an existing server on any of the six routes is
  served exactly when the user is let through by the admin site (active and staff), has
  the model-level view permission for the server and holds
  \<^verbatim>\<open>redisboard.can_inspect\<close>: the result is then the view's own, followed by the close of
  the connection. A user the admin site lets through who fails the first check, or the
  second, gets the forbidden response. A user the admin site does not let through is
  redirected to the login page, whatever permissions they hold.
\<close>

theorem served_iff_staff_and_both_permissions:
  assumes "objects E (route_server_id u) = Some server"
  shows "(user_is_active rq \<and> user_is_staff rq \<and>
          has_view_permission E rq server \<and> user_has_perm rq ''redisboard.can_inspect'' \<longrightarrow>
            (\<exists>r tr1. route_view E u rq server (route_kwargs u) (tr @ [ConnectionAcquired]) = (r, tr1) \<and>
                     get_urls E u rq tr = (r, tr1 @ [ConnectionClosed]) \<and>
                     r \<noteq> Inr (HttpResponseForbidden ''You can't inspect this server.'') \<and>
                     r \<noteq> Inr (HttpResponseRedirect (redirect_to_login E rq)))) \<and>
         (user_is_active rq \<and> user_is_staff rq \<and> \<not> has_view_permission E rq server \<longrightarrow>
            get_urls E u rq tr
              = (Inr (HttpResponseForbidden ''You can't inspect this server.''), tr)) \<and>
         (user_is_active rq \<and> user_is_staff rq \<and> \<not> user_has_perm rq ''redisboard.can_inspect'' \<longrightarrow>
            get_urls E u rq tr
              = (Inr (HttpResponseForbidden ''You can't inspect this server.''), tr)) \<and>
         (\<not> (user_is_active rq \<and> user_is_staff rq) \<longrightarrow>
            get_urls E u rq tr = (Inr (HttpResponseRedirect (redirect_to_login E rq)), tr))"
proof -
  let ?view = "route_view E u" and ?sid = "route_server_id u" and ?kw = "route_kwargs u"
  note gate = wrapper_gate [OF assms route_view_cases, where rq = rq and kw = "?kw" and tr = tr]
  have staff: "user_is_active rq \<and> user_is_staff rq \<Longrightarrow>
                 get_urls E u rq tr = wrapper E ?view rq ?sid ?kw tr"
    by (simp add: get_urls_route wrap_def admin_view_def)
  have other: "\<not> (user_is_active rq \<and> user_is_staff rq) \<Longrightarrow>
                 get_urls E u rq tr = (Inr (HttpResponseRedirect (redirect_to_login E rq)), tr)"
    by (auto simp: get_urls_route wrap_def admin_view_def)
  show ?thesis
  proof (intro conjI impI)
    assume a: "user_is_active rq \<and> user_is_staff rq \<and>
          has_view_permission E rq server \<and> user_has_perm rq ''redisboard.can_inspect''"
    with gate obtain r tr1 where
      run: "?view rq server ?kw (tr @ [ConnectionAcquired]) = (r, tr1)" and
      w: "wrapper E ?view rq ?sid ?kw tr = (r, tr1 @ [ConnectionClosed])" and
      nf: "r \<noteq> Inr (HttpResponseForbidden ''You can't inspect this server.'')"
      by blast
    have "r \<noteq> Inr (HttpResponseRedirect (redirect_to_login E rq))"
    proof
      assume "r = Inr (HttpResponseRedirect (redirect_to_login E rq))"
      with run have "?view rq server ?kw (tr @ [ConnectionAcquired])
                       = (Inr (HttpResponseRedirect (redirect_to_login E rq)), tr1)" by simp
      from view_shape [OF route_view_cases this] show False by auto
    qed
    with run w nf staff a
    show "\<exists>r tr1. ?view rq server ?kw (tr @ [ConnectionAcquired]) = (r, tr1) \<and>
                     get_urls E u rq tr = (r, tr1 @ [ConnectionClosed]) \<and>
                     r \<noteq> Inr (HttpResponseForbidden ''You can't inspect this server.'') \<and>
                     r \<noteq> Inr (HttpResponseRedirect (redirect_to_login E rq))"
      by auto
  next
    assume "user_is_active rq \<and> user_is_staff rq \<and> \<not> has_view_permission E rq server"
    with gate staff show "get_urls E u rq tr
              = (Inr (HttpResponseForbidden ''You can't inspect this server.''), tr)"
      by simp
  next
    assume "user_is_active rq \<and> user_is_staff rq \<and> \<not> user_has_perm rq ''redisboard.can_inspect''"
    with gate staff show "get_urls E u rq tr
              = (Inr (HttpResponseForbidden ''You can't inspect this server.''), tr)"
      by simp
  next
    assume "\<not> (user_is_active rq \<and> user_is_staff rq)"
    then show "get_urls E u rq tr = (Inr (HttpResponseRedirect (redirect_to_login E rq)), tr)"
      by (rule other)
  qed
qed

theorem served_iff_staff_and_both_permissions_witness:
  "get_urls example_env (InspectDbCursor 1 1 3) example_request []
     = (Inr (HttpResponse ''redisboard/inspect.html''
           (InspectContext
              \<lparr>ctx_databases =
                  [\<lparr>db_id = 1, details = [(''keys'', 30)],
                    scan = Page \<lparr>keys = [''user:*''], next_cursor = 13, count = 1\<rparr>,
                    cursor = Some 3\<rparr>],
               ctx_stats = example_stats,
               ctx_active =
                  Some \<lparr>db_id = 1, details = [(''keys'', 30)],
                        scan = Page \<lparr>keys = [''user:*''], next_cursor = 13, count = 1\<rparr>,
                        cursor = Some 3\<rparr>,
               ctx_filters = ''?match=user%3A%2A''\<rparr>)),
        [ConnectionAcquired,
         ScanCall 1 3 [(''match'', ''user:*'')]
           (Inr \<lparr>keys = [''user:*''], next_cursor = 13, count = 1\<rparr>),
         Rendered ''redisboard/inspect.html'',
         ConnectionClosed]) \<and>
   get_urls example_env (InspectDbCursor 1 1 3)
     (example_request\<lparr>user_has_perm := (\<lambda>p. p = ''redisboard.view_redisserver'')\<rparr>) []
     = (Inr (HttpResponseForbidden ''You can't inspect this server.''), []) \<and>
   get_urls example_env (InspectDbCursor 1 1 3)
     (example_request\<lparr>user_has_perm := (\<lambda>p. p = ''redisboard.can_inspect'')\<rparr>) []
     = (Inr (HttpResponseForbidden ''You can't inspect this server.''), []) \<and>
   get_urls example_env (InspectDbCursor 1 1 3) (example_request\<lparr>user_is_active := False\<rparr>) []
     = (Inr (HttpResponseRedirect ''/admin/login/''), [])"
proof -
  have srv: "objects example_env (route_server_id (InspectDbCursor 1 1 3)) = Some example_server"
    by (simp add: example_env_def)
  have run: "route_view example_env (InspectDbCursor 1 1 3) example_request example_server
               (route_kwargs (InspectDbCursor 1 1 3)) ([] @ [ConnectionAcquired])
     = (Inr (HttpResponse ''redisboard/inspect.html''
           (InspectContext
              \<lparr>ctx_databases =
                  [\<lparr>db_id = 1, details = [(''keys'', 30)],
                    scan = Page \<lparr>keys = [''user:*''], next_cursor = 13, count = 1\<rparr>,
                    cursor = Some 3\<rparr>],
               ctx_stats = example_stats,
               ctx_active =
                  Some \<lparr>db_id = 1, details = [(''keys'', 30)],
                        scan = Page \<lparr>keys = [''user:*''], next_cursor = 13, count = 1\<rparr>,
                        cursor = Some 3\<rparr>,
               ctx_filters = ''?match=user%3A%2A''\<rparr>)),
        [ConnectionAcquired,
         ScanCall 1 3 [(''match'', ''user:*'')]
           (Inr \<lparr>keys = [''user:*''], next_cursor = 13, count = 1\<rparr>),
         Rendered ''redisboard/inspect.html''])"
    by (simp add: call_inspect_def inspect_def select_databases_def get_keys_def
          DBInfo_def call_display_scan_def render_def filters_def Let_def no_kwargs_def
          example_env_def example_server_def example_stats_def example_request_def
          example_scan_def)
  have a: "user_is_active example_request \<and> user_is_staff example_request \<and>
           has_view_permission example_env example_request example_server \<and>
           user_has_perm example_request ''redisboard.can_inspect''"
    by (simp add: example_env_def example_request_def)
  have b: "user_is_active (example_request\<lparr>user_has_perm := (\<lambda>p. p = ''redisboard.view_redisserver'')\<rparr>) \<and>
           user_is_staff (example_request\<lparr>user_has_perm := (\<lambda>p. p = ''redisboard.view_redisserver'')\<rparr>) \<and>
           \<not> user_has_perm (example_request\<lparr>user_has_perm := (\<lambda>p. p = ''redisboard.view_redisserver'')\<rparr>)
               ''redisboard.can_inspect''"
    by (simp add: example_request_def)
  have c: "user_is_active (example_request\<lparr>user_has_perm := (\<lambda>p. p = ''redisboard.can_inspect'')\<rparr>) \<and>
           user_is_staff (example_request\<lparr>user_has_perm := (\<lambda>p. p = ''redisboard.can_inspect'')\<rparr>) \<and>
           \<not> has_view_permission example_env
               (example_request\<lparr>user_has_perm := (\<lambda>p. p = ''redisboard.can_inspect'')\<rparr>) example_server"
    by (simp add: example_env_def example_request_def)
  have d: "\<not> (user_is_active (example_request\<lparr>user_is_active := False\<rparr>) \<and>
               user_is_staff (example_request\<lparr>user_is_active := False\<rparr>))"
    by simp
  from served_iff_staff_and_both_permissions [OF srv, of example_request "[]"] a run
  have "get_urls example_env (InspectDbCursor 1 1 3) example_request []
     = (Inr (HttpResponse ''redisboard/inspect.html''
           (InspectContext
              \<lparr>ctx_databases =
                  [\<lparr>db_id = 1, details = [(''keys'', 30)],
                    scan = Page \<lparr>keys = [''user:*''], next_cursor = 13, count = 1\<rparr>,
                    cursor = Some 3\<rparr>],
               ctx_stats = example_stats,
               ctx_active =
                  Some \<lparr>db_id = 1, details = [(''keys'', 30)],
                        scan = Page \<lparr>keys = [''user:*''], next_cursor = 13, count = 1\<rparr>,
                        cursor = Some 3\<rparr>,
               ctx_filters = ''?match=user%3A%2A''\<rparr>)),
        [ConnectionAcquired,
         ScanCall 1 3 [(''match'', ''user:*'')]
           (Inr \<lparr>keys = [''user:*''], next_cursor = 13, count = 1\<rparr>),
         Rendered ''redisboard/inspect.html'',
         ConnectionClosed])"
    by auto
  moreover from served_iff_staff_and_both_permissions [OF srv,
      of "example_request\<lparr>user_has_perm := (\<lambda>p. p = ''redisboard.view_redisserver'')\<rparr>" "[]"] b
  have "get_urls example_env (InspectDbCursor 1 1 3)
     (example_request\<lparr>user_has_perm := (\<lambda>p. p = ''redisboard.view_redisserver'')\<rparr>) []
     = (Inr (HttpResponseForbidden ''You can't inspect this server.''), [])"
    by blast
  moreover from served_iff_staff_and_both_permissions [OF srv,
      of "example_request\<lparr>user_has_perm := (\<lambda>p. p = ''redisboard.can_inspect'')\<rparr>" "[]"] c
  have "get_urls example_env (InspectDbCursor 1 1 3)
     (example_request\<lparr>user_has_perm := (\<lambda>p. p = ''redisboard.can_inspect'')\<rparr>) []
     = (Inr (HttpResponseForbidden ''You can't inspect this server.''), [])"
    by blast
  moreover from served_iff_staff_and_both_permissions [OF srv,
      of "example_request\<lparr>user_is_active := False\<rparr>" "[]"] d
  have "get_urls example_env (InspectDbCursor 1 1 3) (example_request\<lparr>user_is_active := False\<rparr>) []
     = (Inr (HttpResponseRedirect ''/admin/login/''), [])"
    by (simp add: example_env_def)
  ultimately show ?thesis by blast
qed

text \<open>
  C8, as the claim states it, fails for a user who has the view permission and holds
  \<^verbatim>\<open>redisboard.can_inspect\<close> but is not staff: the request is not served, it is redirected
  to the login page and no view runs.
\<close>

theorem both_permissions_not_served:
  "has_view_permission example_env (example_request\<lparr>user_is_staff := False\<rparr>) example_server \<and>
   user_has_perm (example_request\<lparr>user_is_staff := False\<rparr>) ''redisboard.can_inspect'' \<and>
   objects example_env 1 = Some example_server \<and>
   get_urls example_env (Inspect 1) (example_request\<lparr>user_is_staff := False\<rparr>) []
     = (Inr (HttpResponseRedirect ''/admin/login/''), [])"
  by (simp add: wrap_def admin_view_def example_env_def example_request_def)

section \<open>Scanning the selected databases\<close>

text \<open>
  When the query string has no \<^verbatim>\<open>cursor\<close> entry and the scanner answers every call,
  the view returns a response; with a \<^verbatim>\<open>cursor\<close> entry the call of line 207 for a
  selected database is refused as a keyword given twice.
\<close>

lemma scan_databases_returns:
  assumes "map_of q ''cursor'' = None"
    and "\<And>tr i. \<exists>p. display_scan server tr i c q = Inr p"
  shows "\<exists>ds' tr'. scan_databases server c q ds tr = (Inr ds', tr')"
proof (induction ds arbitrary: tr)
  case Nil
  show ?case by simp
next
  case (Cons d ds)
  show ?case
  proof (cases "truthy (scan d)")
    case False
    from Cons.IH [of tr] obtain ds' tr' where "scan_databases server c q ds tr = (Inr ds', tr')"
      by blast
    with False show ?thesis by simp
  next
    case True
    from assms(2) obtain p where p: "display_scan server tr (db_id d) c q = Inr p" by blast
    with assms(1) have call: "call_display_scan server (db_id d) c q tr
                                = (Inr p, tr @ [ScanCall (db_id d) c q (Inr p)])"
      by (simp add: call_display_scan_def Let_def)
    from Cons.IH [of "tr @ [ScanCall (db_id d) c q (Inr p)]"] obtain ds' tr' where
      "scan_databases server c q ds (tr @ [ScanCall (db_id d) c q (Inr p)]) = (Inr ds', tr')"
      by blast
    with True call show ?thesis by simp
  qed
qed

lemma inspect_returns:
  assumes "map_of (GET rq) ''cursor'' = None"
    and "\<And>tr i. \<exists>p. display_scan server tr i c (GET rq) = Inr p"
  shows "\<exists>resp tr'. inspect E rq server db c tr = (Inr resp, tr')"
proof (cases "stats_bool (stats server)")
  case False
  then show ?thesis by (simp add: inspect_def render_def Let_def)
next
  case True
  obtain active dbs where sel:
    "select_databases (REDISBOARD_SCAN_COUNT E) (databases (stats server)) db = (active, dbs)"
    by (cases "select_databases (REDISBOARD_SCAN_COUNT E) (databases (stats server)) db")
  from scan_databases_returns [OF assms, of dbs tr] obtain ds' tr1 where
    "scan_databases server c (GET rq) dbs tr = (Inr ds', tr1)" by blast
  with True sel show ?thesis by (simp add: inspect_def render_def Let_def)
qed

lemma duplicate_cursor_keyword:
  assumes "stats_bool (stats server)" and "map_of (GET rq) ''cursor'' \<noteq> None"
  shows "inspect E rq server (Some i) c tr
           = (Inl (TypeError ''got multiple values for keyword argument cursor''), tr)"
  using assms
  by (simp add: inspect_def select_databases_def DBInfo_def call_display_scan_def Let_def
           split: option.splits)

text \<open>
  Whenever the overview is returned, every summary that the selection flagged for
  scanning has had the scanner called for its database with the cursor of the route (0
  when the route has none) and the query-string dict as it came; the summary in the
  context carries the page the scanner answered to these arguments, and the cursor.
\<close>

lemma enabled_summaries_scanned:
  assumes "call_inspect E rq server kw tr = (Inr resp, tr')"
    and "stats_bool (stats server)"
    and "select_databases (REDISBOARD_SCAN_COUNT E) (databases (stats server)) (kw_db kw) = (active, sel)"
    and "c = (case kw_cursor kw of None \<Rightarrow> 0 | Some c' \<Rightarrow> c')"
  shows "\<exists>ctx. resp = HttpResponse ''redisboard/inspect.html'' (InspectContext ctx) \<and>
           length (ctx_databases ctx) = length sel \<and>
           (\<forall>i < length sel.
              scan (sel ! i) = Flag True \<longrightarrow>
                (\<exists>p pre post.
                   tr' = pre @ ScanCall (db_id (sel ! i)) c (GET rq) (Inr p) # post \<and>
                   length tr \<le> length pre \<and>
                   display_scan server pre (db_id (sel ! i)) c (GET rq) = Inr p \<and>
                   ctx_databases ctx ! i = (sel ! i)\<lparr>scan := Page p, cursor := Some c\<rparr>))"
proof -
  from assms(1) have nokw: "\<not> (kw_count kw \<noteq> None \<or> kw_key kw \<noteq> None)"
    by (auto simp: call_inspect_def split: if_splits)
  with assms(1,4) have run: "inspect E rq server (kw_db kw) c tr = (Inr resp, tr')"
    by (simp add: call_inspect_def)
  obtain r1 tr1 where loop: "scan_databases server c (GET rq) sel tr = (r1, tr1)"
    by (cases "scan_databases server c (GET rq) sel tr")
  from run assms(2,3) loop obtain dbs' where r1: "r1 = Inr dbs'"
    by (cases r1) (auto simp: inspect_def Let_def)
  from run assms(2,3) loop r1 obtain ctx where
    resp: "resp = HttpResponse ''redisboard/inspect.html'' (InspectContext ctx)" and
    ctx: "ctx_databases ctx = dbs'" and
    tr': "tr' = tr1 @ [Rendered ''redisboard/inspect.html'']"
    by (auto simp: inspect_def Let_def render_def)
  from loop r1 have "scan_databases server c (GET rq) sel tr = (Inr dbs', tr1)" by simp
  from scan_databases_Inr [OF this] have
    len: "length dbs' = length sel" and
    each: "\<forall>i < length sel.
        (truthy (scan (sel ! i)) \<longrightarrow>
           (\<exists>p pre post.
              tr1 = pre @ ScanCall (db_id (sel ! i)) c (GET rq) (Inr p) # post \<and>
              length tr \<le> length pre \<and>
              display_scan server pre (db_id (sel ! i)) c (GET rq) = Inr p \<and>
              dbs' ! i = (sel ! i)\<lparr>scan := Page p, cursor := Some c\<rparr>)) \<and>
        (\<not> truthy (scan (sel ! i)) \<longrightarrow> dbs' ! i = sel ! i)"
    by blast+
  have "\<forall>i < length sel.
              scan (sel ! i) = Flag True \<longrightarrow>
                (\<exists>p pre post.
                   tr' = pre @ ScanCall (db_id (sel ! i)) c (GET rq) (Inr p) # post \<and>
                   length tr \<le> length pre \<and>
                   display_scan server pre (db_id (sel ! i)) c (GET rq) = Inr p \<and>
                   ctx_databases ctx ! i = (sel ! i)\<lparr>scan := Page p, cursor := Some c\<rparr>)"
  proof (intro allI impI)
    fix i assume i: "i < length sel" and flag: "scan (sel ! i) = Flag True"
    then have "truthy (scan (sel ! i))" by simp
    with each i obtain p pre post where
      "tr1 = pre @ ScanCall (db_id (sel ! i)) c (GET rq) (Inr p) # post"
      "length tr \<le> length pre"
      "display_scan server pre (db_id (sel ! i)) c (GET rq) = Inr p"
      "dbs' ! i = (sel ! i)\<lparr>scan := Page p, cursor := Some c\<rparr>" by blast
    with tr' ctx have
      "tr' = pre @ ScanCall (db_id (sel ! i)) c (GET rq) (Inr p) # (post @ [Rendered ''redisboard/inspect.html'']) \<and>
       length tr \<le> length pre \<and>
       display_scan server pre (db_id (sel ! i)) c (GET rq) = Inr p \<and>
       ctx_databases ctx ! i = (sel ! i)\<lparr>scan := Page p, cursor := Some c\<rparr>"
      by simp
    then show "\<exists>p pre post.
                   tr' = pre @ ScanCall (db_id (sel ! i)) c (GET rq) (Inr p) # post \<and>
                   length tr \<le> length pre \<and>
                   display_scan server pre (db_id (sel ! i)) c (GET rq) = Inr p \<and>
                   ctx_databases ctx ! i = (sel ! i)\<lparr>scan := Page p, cursor := Some c\<rparr>"
      by blast
  qed
  with resp ctx len show ?thesis by blast
qed

text \<open>The route \<^verbatim>\<open>inspect/1/3/\<close> with the query string \<^verbatim>\<open>match=user:*\<close>: the page in the
  context is the scanner's answer for database 1, cursor 3 and that filter.\<close>

lemma enabled_summaries_scanned_example:
  "call_inspect example_env example_request example_server
     (no_kwargs\<lparr>kw_db := Some 1, kw_cursor := Some 3\<rparr>) []
     = (Inr (HttpResponse ''redisboard/inspect.html''
           (InspectContext
              \<lparr>ctx_databases =
                  [\<lparr>db_id = 1, details = [(''keys'', 30)],
                    scan = Page \<lparr>keys = [''user:*''], next_cursor = 13, count = 1\<rparr>,
                    cursor = Some 3\<rparr>],
               ctx_stats = example_stats,
               ctx_active =
                  Some \<lparr>db_id = 1, details = [(''keys'', 30)],
                        scan = Page \<lparr>keys = [''user:*''], next_cursor = 13, count = 1\<rparr>,
                        cursor = Some 3\<rparr>,
               ctx_filters = ''?match=user%3A%2A''\<rparr>)),
         [ScanCall 1 3 [(''match'', ''user:*'')]
            (Inr \<lparr>keys = [''user:*''], next_cursor = 13, count = 1\<rparr>),
          Rendered ''redisboard/inspect.html''])"
  by (simp add: call_inspect_def inspect_def select_databases_def get_keys_def
        DBInfo_def call_display_scan_def render_def filters_def Let_def no_kwargs_def
        example_env_def example_server_def example_stats_def example_request_def
        example_scan_def)

text \<open>
  C5. The claim fails on the code for a query string that holds \<^verbatim>\<open>cursor\<close>. On the route
  \<^verbatim>\<open>1/inspect/0/\<close> with the query string \<^verbatim>\<open>cursor=7\<close>, for an active staff user with both
  permissions, the summary of database 0 is selected with the scan flag set, yet the
  scanner is never called: line 207 passes \<^verbatim>\<open>cursor\<close> twice, the call is refused with a
  \<^verbatim>\<open>TypeError\<close> and the request ends with it. The only events are those of the
  connection.
\<close>

theorem cursor_query_entry_refused:
  "select_databases (REDISBOARD_SCAN_COUNT example_env) (databases (stats example_server)) (Some 0)
     = (Some \<lparr>db_id = 0, details = [(''keys'', 50)], scan = Flag True, cursor = None\<rparr>,
        [\<lparr>db_id = 0, details = [(''keys'', 50)], scan = Flag True, cursor = None\<rparr>]) \<and>
   get_urls example_env (InspectDb 1 0)
     (example_request\<lparr>GET := [(''cursor'', ''7'')], GET_urlencode := ''cursor=7''\<rparr>) []
     = (Inl (TypeError ''got multiple values for keyword argument cursor''),
        [ConnectionAcquired, ConnectionClosed])"
  by (simp add: wrap_def admin_view_def wrapper_def call_inspect_def inspect_def
        select_databases_def DBInfo_def call_display_scan_def Let_def no_kwargs_def
        example_env_def example_server_def example_stats_def example_request_def)

text \<open>
  C10. With no database selected and a total at or above the threshold, the overview is
  rendered without a single scanner call, whatever the query string holds, and every
  summary in the context is as its constructor left it: id and details set, the scan flag
  false, no page and no cursor.
\<close>

theorem disabled_summaries_untouched:
  assumes "stats_bool (stats server)"
    and "\<not> total_keys (databases (stats server)) < REDISBOARD_SCAN_COUNT E"
  shows "inspect E rq server None c tr
           = (Inr (HttpResponse ''redisboard/inspect.html''
                     (InspectContext
                        \<lparr>ctx_databases = map (\<lambda>item. DBInfo_default (fst item) (snd item))
                                             (databases (stats server)),
                         ctx_stats = stats server, ctx_active = None,
                         ctx_filters = filters rq\<rparr>)),
              tr @ [Rendered ''redisboard/inspect.html'']) \<and>
         (\<forall>item \<in> set (databases (stats server)).
            db_id (DBInfo_default (fst item) (snd item)) = fst item \<and>
            details (DBInfo_default (fst item) (snd item)) = snd item \<and>
            scan (DBInfo_default (fst item) (snd item)) = Flag False \<and>
            cursor (DBInfo_default (fst item) (snd item)) = None)"
proof -
  let ?dbs = "map (\<lambda>item. DBInfo_default (fst item) (snd item)) (databases (stats server))"
  from assms(2) have sel:
    "select_databases (REDISBOARD_SCAN_COUNT E) (databases (stats server)) None = (None, ?dbs)"
    by (simp add: select_databases_def)
  have "\<forall>d \<in> set ?dbs. \<not> truthy (scan d)"
    by (simp add: DBInfo_default_def DBInfo_def)
  then have loop: "scan_databases server c (GET rq) ?dbs tr = (Inr ?dbs, tr)"
    by (rule scan_databases_disabled)
  from assms(1) sel loop have "inspect E rq server None c tr
           = (Inr (HttpResponse ''redisboard/inspect.html''
                     (InspectContext
                        \<lparr>ctx_databases = ?dbs,
                         ctx_stats = stats server, ctx_active = None,
                         ctx_filters = filters rq\<rparr>)),
              tr @ [Rendered ''redisboard/inspect.html''])"
    unfolding inspect_def Let_def render_def
    by (simp split: list.splits)
  then show ?thesis by (simp add: DBInfo_default_def DBInfo_def)
qed

theorem disabled_summaries_untouched_witness:
  "inspect (example_env\<lparr>REDISBOARD_SCAN_COUNT := 80\<rparr>) (example_request\<lparr>GET := [(''cursor'', ''7'')], GET_urlencode := ''cursor=7''\<rparr>)
      example_server None 0 []
     = (Inr (HttpResponse ''redisboard/inspect.html''
               (InspectContext
                  \<lparr>ctx_databases =
                      [\<lparr>db_id = 0, details = [(''keys'', 50)], scan = Flag False, cursor = None\<rparr>,
                       \<lparr>db_id = 1, details = [(''keys'', 30)], scan = Flag False, cursor = None\<rparr>],
                   ctx_stats = example_stats, ctx_active = None,
                   ctx_filters = ''?cursor=7''\<rparr>)),
        [Rendered ''redisboard/inspect.html''])"
proof -
  have a: "stats_bool (stats example_server)"
    by (simp add: example_server_def example_stats_def)
  have b: "\<not> total_keys (databases (stats example_server))
             < REDISBOARD_SCAN_COUNT (example_env\<lparr>REDISBOARD_SCAN_COUNT := 80\<rparr>)"
    by (simp add: example_server_def example_stats_def total_keys_def get_keys_def)
  from disabled_summaries_untouched [OF a b, of "example_request\<lparr>GET := [(''cursor'', ''7'')], GET_urlencode := ''cursor=7''\<rparr>" 0 "[]"]
  show ?thesis
    by (simp add: example_server_def example_stats_def DBInfo_default_def DBInfo_def filters_def
          example_request_def)
qed

section \<open>The lifetime of the connection\<close>

lemma takeWhile_before_render:
  assumes "evs \<noteq> []" and "last evs = Rendered t" and "ConnectionClosed \<notin> set evs"
  shows "ConnectionClosed \<notin> set (takeWhile (\<lambda>e. e \<noteq> Rendered t) (ConnectionAcquired # evs @ [ConnectionClosed]))"
proof -
  from assms(1,2) have "Rendered t \<in> set (ConnectionAcquired # evs)"
    using last_in_set [of evs] by auto
  then have "takeWhile (\<lambda>e. e \<noteq> Rendered t) ((ConnectionAcquired # evs) @ [ConnectionClosed])
               = takeWhile (\<lambda>e. e \<noteq> Rendered t) (ConnectionAcquired # evs)"
    by (intro takeWhile_append1 [where x = "Rendered t"]) simp_all
  moreover have "set (takeWhile (\<lambda>e. e \<noteq> Rendered t) (ConnectionAcquired # evs))
                   \<subseteq> set (ConnectionAcquired # evs)"
    by (rule set_takeWhileD [THEN conjunct1, THEN subsetI]) 
  ultimately show ?thesis using assms(3) by auto
qed

text \<open>
  C6. For a request that passes the gate, the wrapper closes the connection as its last
  step, whether the view returned or raised: its events are the view's followed by the
  close. The two inspection views never close the connection themselves, and a response
  of theirs is never one whose rendering is deferred: it is already rendered when the
  view returns. So the connection is not closed before the response is produced, and it
  is closed, once, right after.
\<close>

theorem connection_closed_when_view_done:
  assumes "objects E server_id = Some server"
    and "has_view_permission E rq server \<and> user_has_perm rq ''redisboard.can_inspect''"
  shows "snd (wrapper E view rq server_id kw tr)
           = snd (view rq server kw (tr @ [ConnectionAcquired])) @ [ConnectionClosed] \<and>
         (view = call_inspect E \<or> view = call_inspect_key E \<longrightarrow>
            (\<exists>r evs. view rq server kw (tr @ [ConnectionAcquired]) = (r, tr @ ConnectionAcquired # evs) \<and>
                     wrapper E view rq server_id kw tr
                       = (r, tr @ ConnectionAcquired # evs @ [ConnectionClosed]) \<and>
                     ConnectionClosed \<notin> set evs \<and>
                     (\<forall>resp. r = Inr resp \<longrightarrow>
                        \<not> deferred resp \<and>
                        \<not> closed_before_produced resp
                             (ConnectionAcquired # evs @ [ConnectionClosed]))))"
proof (intro conjI impI)
  show "snd (wrapper E view rq server_id kw tr)
           = snd (view rq server kw (tr @ [ConnectionAcquired])) @ [ConnectionClosed]"
    using assms
    by (cases "view rq server kw (tr @ [ConnectionAcquired])")
       (auto simp: wrapper_def split: sum.splits)
next
  assume v: "view = call_inspect E \<or> view = call_inspect_key E"
  obtain r tr1 where run: "view rq server kw (tr @ [ConnectionAcquired]) = (r, tr1)"
    by (cases "view rq server kw (tr @ [ConnectionAcquired])")
  from view_shape [OF v run] obtain evs where
    tr1: "tr1 = (tr @ [ConnectionAcquired]) @ evs" and noclose: "ConnectionClosed \<notin> set evs" and
    shape: "\<forall>resp. r = Inr resp \<longrightarrow>
              (resp = HttpResponseNotFound ''Key is gone.'' \<or>
               (\<exists>t ctx. resp = HttpResponse t ctx \<and> evs \<noteq> [] \<and> last evs = Rendered t))"
    by blast
  have w: "wrapper E view rq server_id kw tr = (r, tr1 @ [ConnectionClosed])"
  proof (cases r)
    case (Inl e)
    with assms run show ?thesis by (simp add: wrapper_def)
  next
    case (Inr resp)
    with run have "view rq server kw (tr @ [ConnectionAcquired]) = (Inr resp, tr1)" by simp
    from view_response_kept [OF v this] have "add_cleanup resp = resp" by simp
    with assms run Inr show ?thesis by (simp add: wrapper_def)
  qed
  have "\<forall>resp. r = Inr resp \<longrightarrow>
          \<not> deferred resp \<and>
          \<not> closed_before_produced resp (ConnectionAcquired # evs @ [ConnectionClosed])"
  proof (intro allI impI)
    fix resp assume "r = Inr resp"
    with shape consider "resp = HttpResponseNotFound ''Key is gone.''"
      | t ctx where "resp = HttpResponse t ctx" "evs \<noteq> []" "last evs = Rendered t"
      by blast
    then show "\<not> deferred resp \<and>
          \<not> closed_before_produced resp (ConnectionAcquired # evs @ [ConnectionClosed])"
    proof cases
      case 1
      then show ?thesis by (simp add: closed_before_produced_def)
    next
      case 2
      from takeWhile_before_render [OF 2(2,3) noclose] 2(1)
      show ?thesis by (simp add: closed_before_produced_def)
    qed
  qed
  with run w tr1 noclose
  show "\<exists>r evs. view rq server kw (tr @ [ConnectionAcquired]) = (r, tr @ ConnectionAcquired # evs) \<and>
                     wrapper E view rq server_id kw tr
                       = (r, tr @ ConnectionAcquired # evs @ [ConnectionClosed]) \<and>
                     ConnectionClosed \<notin> set evs \<and>
                     (\<forall>resp. r = Inr resp \<longrightarrow>
                        \<not> deferred resp \<and>
                        \<not> closed_before_produced resp
                             (ConnectionAcquired # evs @ [ConnectionClosed]))"
    by auto
qed

theorem connection_closed_when_view_done_witness:
  "snd (wrapper example_env (call_inspect_key example_env) example_request 1
          (no_kwargs\<lparr>kw_db := Some 0, kw_key := Some ''present''\<rparr>) [])
     = [ConnectionAcquired,
        ExistsCall ''present'' (Inr 1),
        KeysCall 0 [''present''] (Inr [\<lparr>key_name = ''present'', key_type = ''list'', key_size = 12,
                                        key_ttl = None\<rparr>]),
        ValueCall 0 ''present'' 0 0 (Inr (example_page 7)),
        Rendered ''redisboard/inspect_key.html'',
        ConnectionClosed] \<and>
   snd (wrapper example_env (call_inspect example_env)
          (example_request\<lparr>GET := [(''cursor'', ''7'')], GET_urlencode := ''cursor=7''\<rparr>) 1
          (no_kwargs\<lparr>kw_db := Some 0\<rparr>) [])
     = [ConnectionAcquired, ConnectionClosed] \<and>
   fst (wrapper example_env (call_inspect example_env)
          (example_request\<lparr>GET := [(''cursor'', ''7'')], GET_urlencode := ''cursor=7''\<rparr>) 1
          (no_kwargs\<lparr>kw_db := Some 0\<rparr>) [])
     = Inl (TypeError ''got multiple values for keyword argument cursor'')"
proof -
  have srv: "objects example_env 1 = Some example_server" by (simp add: example_env_def)
  have g1: "has_view_permission example_env example_request example_server \<and>
            user_has_perm example_request ''redisboard.can_inspect''"
    by (simp add: example_env_def example_request_def)
  have g2: "has_view_permission example_env
              (example_request\<lparr>GET := [(''cursor'', ''7'')], GET_urlencode := ''cursor=7''\<rparr>) example_server \<and>
            user_has_perm (example_request\<lparr>GET := [(''cursor'', ''7'')], GET_urlencode := ''cursor=7''\<rparr>)
              ''redisboard.can_inspect''"
    by (simp add: example_env_def example_request_def)
  have run1: "call_inspect_key example_env example_request example_server
                (no_kwargs\<lparr>kw_db := Some 0, kw_key := Some ''present''\<rparr>) [ConnectionAcquired]
     = (Inr (HttpResponse ''redisboard/inspect_key.html''
               (KeyContext \<lparr>ctx_key = ''present'', ctx_encoded_key = ''present'',
                  ctx_key_stats = [\<lparr>key_name = ''present'', key_type = ''list'', key_size = 12,
                                     key_ttl = None\<rparr>],
                  ctx_count = 7, ctx_scan = example_page 7, ctx_db_id = 0, ctx_db_cursor = 0\<rparr>)),
        [ConnectionAcquired,
         ExistsCall ''present'' (Inr 1),
         KeysCall 0 [''present''] (Inr [\<lparr>key_name = ''present'', key_type = ''list'', key_size = 12,
                                     key_ttl = None\<rparr>]),
         ValueCall 0 ''present'' 0 0 (Inr (example_page 7)),
         Rendered ''redisboard/inspect_key.html''])"
    by (simp add: call_inspect_key_def inspect_key_def render_def Let_def no_kwargs_def
          example_env_def example_server_def example_page_def)
  have run2: "call_inspect example_env
                (example_request\<lparr>GET := [(''cursor'', ''7'')], GET_urlencode := ''cursor=7''\<rparr>)
                example_server (no_kwargs\<lparr>kw_db := Some 0\<rparr>) [ConnectionAcquired]
     = (Inl (TypeError ''got multiple values for keyword argument cursor''), [ConnectionAcquired])"
    by (simp add: call_inspect_def inspect_def select_databases_def DBInfo_def
          call_display_scan_def Let_def no_kwargs_def
          example_env_def example_server_def example_stats_def)
  from connection_closed_when_view_done [OF srv g1, of "call_inspect_key example_env"
      "no_kwargs\<lparr>kw_db := Some 0, kw_key := Some ''present''\<rparr>" "[]"] run1
  have a: "snd (wrapper example_env (call_inspect_key example_env) example_request 1
          (no_kwargs\<lparr>kw_db := Some 0, kw_key := Some ''present''\<rparr>) [])
     = [ConnectionAcquired,
        ExistsCall ''present'' (Inr 1),
        KeysCall 0 [''present''] (Inr [\<lparr>key_name = ''present'', key_type = ''list'', key_size = 12,
                                        key_ttl = None\<rparr>]),
        ValueCall 0 ''present'' 0 0 (Inr (example_page 7)),
        Rendered ''redisboard/inspect_key.html'',
        ConnectionClosed]"
    by simp
  from connection_closed_when_view_done [OF srv g2, of "call_inspect example_env"
      "no_kwargs\<lparr>kw_db := Some 0\<rparr>" "[]"] run2
  have b: "snd (wrapper example_env (call_inspect example_env)
          (example_request\<lparr>GET := [(''cursor'', ''7'')], GET_urlencode := ''cursor=7''\<rparr>) 1
          (no_kwargs\<lparr>kw_db := Some 0\<rparr>) [])
     = [ConnectionAcquired, ConnectionClosed]"
    by simp
  from srv g2 run2 have c: "fst (wrapper example_env (call_inspect example_env)
          (example_request\<lparr>GET := [(''cursor'', ''7'')], GET_urlencode := ''cursor=7''\<rparr>) 1
          (no_kwargs\<lparr>kw_db := Some 0\<rparr>) [])
     = Inl (TypeError ''got multiple values for keyword argument cursor'')"
    by (simp add: wrapper_def)
  from a b c show ?thesis by blast
qed

text \<open>Line 119 binds the callback for a deferred response to the connection's
  \<^verbatim>\<open>close\<close> method, not to the connection.\<close>

lemma callback_has_no_close:
  "cleanup_connection resp BoundClose tr = (Inl (AttributeError ''close''), tr)"
  by (simp add: cleanup_connection_def)

end
